theory Spec2Isabelle
  imports Main
begin

section \<open>The data of \<open>src/snake-game.tsx\<close>\<close>

text \<open>
  The component \<open>SnakeGame\<close> keeps its game in React state cells and changes them from
  a timer callback (\<open>moveSnake\<close>) and from event handlers. The model below is a record of
  those cells and one HOL function per callback, each taking the state of the render it
  closes over and returning the state after its batched updates.

  Coordinates and the score are JavaScript numbers that only ever hold small integers;
  they are modelled as \<open>int\<close> and \<open>nat\<close>. The two presentation cells \<open>isMobile\<close> and
  \<open>cellSize\<close> take no part in the game and are left out.
\<close>

datatype Direction = UP | DOWN | LEFT | RIGHT

type_synonym Position = "int \<times> int"

datatype Difficulty = Easy | Normal | Hard

definition GRID_SIZE :: int where
  "GRID_SIZE = 20"

definition INITIAL_SNAKE :: "Position list" where
  "INITIAL_SNAKE = [(5, 5)]"

definition INITIAL_DIRECTION :: Direction where
  "INITIAL_DIRECTION = RIGHT"

fun GAME_SPEEDS :: "Difficulty \<Rightarrow> nat" where
  "GAME_SPEEDS Easy = 200"
| "GAME_SPEEDS Normal = 150"
| "GAME_SPEEDS Hard = 100"

text \<open>
  The field \<open>gameInterval\<close> stands for the timer behind \<open>gameIntervalRef\<close>: \<open>Some p\<close>
  when an interval of period \<open>p\<close> milliseconds is active, \<open>None\<close> when none is.
\<close>

record game =
  snake :: "Position list"
  direction :: Direction
  food :: Position
  gameOver :: bool
  score :: nat
  isPlaying :: bool
  difficulty :: Difficulty
  gameInterval :: "nat option"

text \<open>The only run-time failure of the callbacks: destructuring \<open>undefined\<close>.\<close>

datatype error = TypeError

section \<open>Arithmetic and random cells\<close>

subsection \<open>Remainder\<close>

text \<open>
  JavaScript's \<open>%\<close> truncates: the result has the sign of the dividend. (A zero divisor
  gives NaN in JavaScript; the only divisor in this program is \<open>GRID_SIZE\<close>.)
\<close>

definition js_rem :: "int \<Rightarrow> int \<Rightarrow> int" where
  "js_rem a b = sgn a * (\<bar>a\<bar> mod \<bar>b\<bar>)"

subsection \<open>Binary64 numbers\<close>

text \<open>
  \<open>Math.random() * GRID_SIZE\<close> is a product of two binary64 numbers, rounded to the
  nearest binary64 number, ties to even. Neither factor is negative, so a number is
  modelled by a significand and an exponent: \<open>(m, e)\<close> stands for \<open>m * 2 ^ e\<close>. The
  finite binary64 numbers that are not negative are the pairs with \<open>m < 2 ^ 53\<close> and
  \<open>- 1074 \<le> e \<le> 971\<close>; one number has several such pairs.
\<close>

type_synonym binary64 = "nat \<times> int"

text \<open>The number of binary digits of \<open>n\<close>.\<close>

fun bit_length :: "nat \<Rightarrow> nat" where
  "bit_length n = (if n = 0 then 0 else Suc (bit_length (n div 2)))"

text \<open>\<open>n / 2 ^ sh\<close> rounded to the nearest integer, a tie to the even one.\<close>

definition round_half_even :: "nat \<Rightarrow> nat \<Rightarrow> nat" where
  "round_half_even n sh =
     (let q = n div 2 ^ sh; rest = n mod 2 ^ sh
      in if 2 * rest < 2 ^ sh then q
         else if 2 ^ sh < 2 * rest then q + 1
         else if even q then q else q + 1)"

text \<open>
  The binary64 number nearest to \<open>n * 2 ^ e\<close>: the digits beyond the 53rd, and those
  below \<open>2 ^ - 1074\<close>, are rounded away. (A result of \<open>2 ^ 1024\<close> or more, which
  JavaScript turns into \<open>Infinity\<close>, does not arise in this program: one factor is below
  1 and the other is 20.)
\<close>

definition round64 :: "nat \<Rightarrow> int \<Rightarrow> binary64" where
  "round64 n e =
     (let sh = nat (max (int (bit_length n) - 53) (- 1074 - e))
      in (round_half_even n sh, e + int sh))"

text \<open>The operator \<open>*\<close> on two such numbers, and \<open>Math.floor\<close>.\<close>

definition js_mul :: "binary64 \<Rightarrow> binary64 \<Rightarrow> binary64" where
  "js_mul a b = round64 (fst a * fst b) (snd a + snd b)"

definition Math_floor :: "binary64 \<Rightarrow> int" where
  "Math_floor a =
     (if 0 \<le> snd a then int (fst a) * 2 ^ nat (snd a)
      else int (fst a) div 2 ^ nat (- snd a))"

text \<open>The binary64 number of a small integer constant that is not negative.\<close>

definition number :: "int \<Rightarrow> binary64" where
  "number k = (nat k, 0)"

subsection \<open>Random cells\<close>

text \<open>
  \<open>Math.random()\<close> returns a binary64 number that is at least 0 and less than 1:
  \<open>Math_random_result\<close>. \<open>getRandomPosition\<close> calls it twice; the two numbers drawn
  are the argument of the model.
\<close>

definition Math_random_result :: "binary64 \<Rightarrow> bool" where
  "Math_random_result d =
     (fst d < 2 ^ 53 \<and> - 1074 \<le> snd d \<and>
      (if snd d < 0 then fst d < 2 ^ nat (- snd d) else fst d = 0))"

type_synonym draws = "binary64 \<times> binary64"

definition unit_draws :: "draws \<Rightarrow> bool" where
  "unit_draws r = (Math_random_result (fst r) \<and> Math_random_result (snd r))"

definition getRandomPosition :: "draws \<Rightarrow> Position" where
  "getRandomPosition r =
     (Math_floor (js_mul (fst r) (number GRID_SIZE)),
      Math_floor (js_mul (snd r) (number GRID_SIZE)))"

definition in_grid :: "Position \<Rightarrow> bool" where
  "in_grid c = (0 \<le> fst c \<and> fst c < GRID_SIZE \<and> 0 \<le> snd c \<and> snd c < GRID_SIZE)"

section \<open>The timer callback \<open>moveSnake\<close>\<close>

text \<open>The \<open>switch (direction)\<close> of \<open>moveSnake\<close> that computes \<open>newHead\<close>.\<close>

fun newHead :: "Direction \<Rightarrow> Position \<Rightarrow> Position" where
  "newHead UP (headX, headY) = (headX, js_rem (headY - 1 + GRID_SIZE) GRID_SIZE)"
| "newHead DOWN (headX, headY) = (headX, js_rem (headY + 1) GRID_SIZE)"
| "newHead LEFT (headX, headY) = (js_rem (headX - 1 + GRID_SIZE) GRID_SIZE, headY)"
| "newHead RIGHT (headX, headY) = (js_rem (headX + 1) GRID_SIZE, headY)"

text \<open>\<open>Array.prototype.some\<close> with a callback that also receives the index.\<close>

fun some_from :: "nat \<Rightarrow> ('a \<Rightarrow> nat \<Rightarrow> bool) \<Rightarrow> 'a list \<Rightarrow> bool" where
  "some_from i p [] = False"
| "some_from i p (x # xs) = (p x i \<or> some_from (Suc i) p xs)"

definition some_js :: "('a \<Rightarrow> nat \<Rightarrow> bool) \<Rightarrow> 'a list \<Rightarrow> bool" where
  "some_js p xs = some_from 0 p xs"

text \<open>The test of the self-collision \<open>if\<close>.\<close>

definition hitsSelf :: "Position list \<Rightarrow> Position \<Rightarrow> bool" where
  "hitsSelf newSnake nh =
     some_js (\<lambda>segment index. index \<noteq> 0 \<and> fst segment = fst nh \<and> snd segment = snd nh)
       newSnake"

text \<open>
  \<open>moveSnake\<close>. \<open>newSnake.unshift(newHead)\<close> is a cons, \<open>newSnake.pop()\<close> is \<open>butlast\<close>.
  The draws are read only where the source calls \<open>getRandomPosition\<close>.
\<close>

definition moveSnake :: "game \<Rightarrow> draws \<Rightarrow> error + game" where
  "moveSnake s r =
     (if gameOver s \<or> \<not> isPlaying s then Inr s
      else case snake s of
        [] \<Rightarrow> Inl TypeError
      | hd0 # _ \<Rightarrow>
          let newSnake = snake s;
              nh = newHead (direction s) hd0
          in if hitsSelf newSnake nh
             then Inr (s\<lparr>gameOver := True, isPlaying := False\<rparr>)
             else if fst nh = fst (food s) \<and> snd nh = snd (food s)
             then Inr (s\<lparr>food := getRandomPosition r, score := score s + 1,
                          snake := nh # newSnake\<rparr>)
             else Inr (s\<lparr>snake := butlast (nh # newSnake)\<rparr>))"

section \<open>The event handlers\<close>

text \<open>
  \<open>handleKeyPress\<close>: each arrow key passes an updater to \<open>setDirection\<close>, which React
  applies to the latest value of the cell.
\<close>

definition handleKeyPress :: "game \<Rightarrow> string \<Rightarrow> game" where
  "handleKeyPress s key =
     (if \<not> isPlaying s then s
      else if key = ''ArrowUp''
        then s\<lparr>direction := (\<lambda>prev. if prev \<noteq> DOWN then UP else prev) (direction s)\<rparr>
      else if key = ''ArrowDown''
        then s\<lparr>direction := (\<lambda>prev. if prev \<noteq> UP then DOWN else prev) (direction s)\<rparr>
      else if key = ''ArrowLeft''
        then s\<lparr>direction := (\<lambda>prev. if prev \<noteq> RIGHT then LEFT else prev) (direction s)\<rparr>
      else if key = ''ArrowRight''
        then s\<lparr>direction := (\<lambda>prev. if prev \<noteq> LEFT then RIGHT else prev) (direction s)\<rparr>
      else s)"

definition handleTouchStart :: "game \<Rightarrow> Direction \<Rightarrow> game" where
  "handleTouchStart s newDirection =
     (if \<not> isPlaying s then s
      else if (direction s = UP \<and> newDirection = DOWN) \<or>
              (direction s = DOWN \<and> newDirection = UP) \<or>
              (direction s = LEFT \<and> newDirection = RIGHT) \<or>
              (direction s = RIGHT \<and> newDirection = LEFT)
        then s
      else s\<lparr>direction := newDirection\<rparr>)"

definition resetGame :: "game \<Rightarrow> draws \<Rightarrow> game" where
  "resetGame s r =
     s\<lparr>snake := INITIAL_SNAKE, direction := INITIAL_DIRECTION,
       food := getRandomPosition r, gameOver := False, score := 0, isPlaying := True\<rparr>"

definition startGame :: "game \<Rightarrow> draws \<Rightarrow> game" where
  "startGame s r = (resetGame s r)\<lparr>isPlaying := True\<rparr>"

text \<open>
  \<open>handleDifficultyChange\<close> receives the value of one of the three \<open>SelectItem\<close>s.
\<close>

definition handleDifficultyChange :: "game \<Rightarrow> Difficulty \<Rightarrow> draws \<Rightarrow> game" where
  "handleDifficultyChange s v r =
     (let s1 = s\<lparr>difficulty := v\<rparr>
      in if isPlaying s then resetGame s1 r else s1)"

section \<open>Effects and sessions\<close>

text \<open>
  The effect with dependencies \<open>[isPlaying, difficulty, moveSnake]\<close>: its cleanup clears
  the interval, and its body sets a new one only while \<open>isPlaying\<close>.
\<close>

definition intervalEffect :: "game \<Rightarrow> game" where
  "intervalEffect s =
     s\<lparr>gameInterval := (if isPlaying s then Some (GAME_SPEEDS (difficulty s)) else None)\<rparr>"

text \<open>The \<open>useState\<close> initial values, and the state after the effects of the first render.\<close>

definition initialState :: game where
  "initialState =
     \<lparr>snake = INITIAL_SNAKE, direction = INITIAL_DIRECTION, food = (0, 0),
      gameOver = False, score = 0, isPlaying = False, difficulty = Normal,
      gameInterval = None\<rparr>"

definition mounted :: "draws \<Rightarrow> game" where
  "mounted r = intervalEffect (initialState\<lparr>food := getRandomPosition r\<rparr>)"

datatype event =
    Tick draws
  | KeyDown string
  | Touch Direction
  | PlayAgain draws
  | StartGame draws
  | SelectDifficulty Difficulty draws

fun event_draws :: "event \<Rightarrow> draws" where
  "event_draws (Tick r) = r"
| "event_draws (KeyDown k) = ((0, 0), (0, 0))"
| "event_draws (Touch d) = ((0, 0), (0, 0))"
| "event_draws (PlayAgain r) = r"
| "event_draws (StartGame r) = r"
| "event_draws (SelectDifficulty v r) = r"

fun handle :: "event \<Rightarrow> game \<Rightarrow> error + game" where
  "handle (Tick r) s = moveSnake s r"
| "handle (KeyDown k) s = Inr (handleKeyPress s k)"
| "handle (Touch d) s = Inr (handleTouchStart s d)"
| "handle (PlayAgain r) s = Inr (resetGame s r)"
| "handle (StartGame r) s = Inr (startGame s r)"
| "handle (SelectDifficulty v r) s = Inr (handleDifficultyChange s v r)"

text \<open>One event: the handler, then the effects of the render that follows.\<close>

definition fire :: "event \<Rightarrow> game \<Rightarrow> error + game" where
  "fire e s = (case handle e s of Inl err \<Rightarrow> Inl err | Inr s' \<Rightarrow> Inr (intervalEffect s'))"

fun run :: "event list \<Rightarrow> game \<Rightarrow> error + game" where
  "run [] s = Inr s"
| "run (e # es) s = (case fire e s of Inl err \<Rightarrow> Inl err | Inr s' \<Rightarrow> run es s')"

text \<open>
  The states a session can be in: the mounted component, followed by any events whose
  draws are results of \<open>Math.random\<close>. The page shows its buttons, and runs its timer,
  only in some states; the relation lets every event happen in every state, which can only
  add states.
\<close>

inductive reachable :: "game \<Rightarrow> bool" where
  reach_mounted: "unit_draws r \<Longrightarrow> reachable (mounted r)"
| reach_fire: "reachable s \<Longrightarrow> unit_draws (event_draws e) \<Longrightarrow> fire e s = Inr s'
               \<Longrightarrow> reachable s'"

text \<open>
  The pairs of headings that the guard of \<open>handleTouchStart\<close> lists as 180-degree turns,
  and the key that requests each heading.
\<close>

fun opposite :: "Direction \<Rightarrow> Direction" where
  "opposite UP = DOWN"
| "opposite DOWN = UP"
| "opposite LEFT = RIGHT"
| "opposite RIGHT = LEFT"

fun arrowKey :: "Direction \<Rightarrow> string" where
  "arrowKey UP = ''ArrowUp''"
| "arrowKey DOWN = ''ArrowDown''"
| "arrowKey LEFT = ''ArrowLeft''"
| "arrowKey RIGHT = ''ArrowRight''"

section \<open>Sample states\<close>

text \<open>
  Draws in the examples are written as pairs: \<open>(0, 0)\<close> is 0, \<open>(1, - 1)\<close> is 1/2,
  \<open>(1, - 2)\<close> is 1/4 and \<open>(5, - 4)\<close> is 5/16, which give the coordinates 0, 10, 5 and 6.
  Three states used to run the callbacks on concrete input: the session right after
  \<open>startGame\<close> with the food one cell ahead; a snake of two cells that has just moved up;
  and a snake of four cells coiled in a square, about to move into its own tail.
\<close>

definition just_started :: game where
  "just_started =
     \<lparr>snake = [(5, 5)], direction = RIGHT, food = (6, 5), gameOver = False, score = 0,
      isPlaying = True, difficulty = Normal, gameInterval = Some 150\<rparr>"

definition heading_up :: game where
  "heading_up =
     \<lparr>snake = [(6, 4), (6, 5)], direction = UP, food = (0, 0), gameOver = False, score = 1,
      isPlaying = True, difficulty = Normal, gameInterval = Some 150\<rparr>"

definition coiled :: game where
  "coiled =
     \<lparr>snake = [(3, 3), (4, 3), (4, 4), (3, 4)], direction = DOWN, food = (0, 0),
      gameOver = False, score = 3, isPlaying = True, difficulty = Normal,
      gameInterval = Some 150\<rparr>"

section \<open>Basic facts\<close>

lemma js_rem_nonneg: "0 \<le> a \<Longrightarrow> 0 < b \<Longrightarrow> js_rem a b = a mod b"
  by (cases "a = 0") (simp_all add: js_rem_def)

lemma some_from_tail:
  "some_from (Suc i) (\<lambda>segment index. index \<noteq> 0 \<and> fst segment = fst nh \<and> snd segment = snd nh) xs
     = (nh \<in> set xs)"
proof (induction xs arbitrary: i)
  case Nil
  show ?case by simp
next
  case (Cons x xs)
  have "(fst x = fst nh \<and> snd x = snd nh) = (nh = x)"
    by (auto simp: prod_eq_iff)
  with Cons.IH [of "Suc i"] show ?case by simp
qed

lemma hitsSelf_Cons: "hitsSelf (x # xs) nh = (nh \<in> set xs)"
  using some_from_tail [of 0 nh xs] by (simp add: hitsSelf_def some_js_def)

lemma hitsSelf_Nil: "hitsSelf [] nh = False"
  by (simp add: hitsSelf_def some_js_def)

subsection \<open>Rounding\<close>

declare bit_length.simps [simp del]

lemma bit_length_le: "n < 2 ^ j \<Longrightarrow> bit_length n \<le> j"
proof (induction j arbitrary: n)
  case 0
  then show ?case by (simp add: bit_length.simps)
next
  case (Suc j)
  from Suc.prems have "n div 2 < 2 ^ j" by simp
  from Suc.IH [OF this] show ?case
    by (subst bit_length.simps) simp
qed

lemma round_half_even_bound: "2 * (round_half_even n sh * 2 ^ sh) \<le> 2 * n + 2 ^ sh"
proof -
  define T :: nat where "T = 2 ^ sh"
  define q where "q = n div T"
  define r where "r = n mod T"
  have n: "n = q * T + r"
    unfolding q_def r_def by (rule div_mult_mod_eq [symmetric])
  have v: "round_half_even n sh =
      (if 2 * r < T then q else if T < 2 * r then q + 1 else if even q then q else q + 1)"
    by (simp add: round_half_even_def Let_def T_def q_def r_def)
  have down: "2 * (q * T) \<le> 2 * n + T"
    using n by simp
  have up: "2 * ((q + 1) * T) \<le> 2 * n + T" if "T \<le> 2 * r"
    using n that by (simp add: algebra_simps)
  have "2 * (round_half_even n sh * T) \<le> 2 * n + T"
    using down up by (auto simp: v)
  then show ?thesis by (simp only: T_def)
qed

lemma Math_floor_nonneg: "0 \<le> Math_floor a"
  by (simp add: Math_floor_def pos_imp_zdiv_nonneg_iff)

lemma Math_floor_less:
  assumes "fst a * 2 ^ sh < c * 2 ^ k" and "snd a = int sh - int k"
  shows "Math_floor a < int c"
proof (cases "k \<le> sh")
  case True
  then have e: "nat (snd a) = sh - k" "0 \<le> snd a" using assms(2) by auto
  from True have "fst a * 2 ^ sh = fst a * 2 ^ (sh - k) * 2 ^ k"
    by (simp add: power_add [symmetric])
  with assms(1) have "fst a * 2 ^ (sh - k) < c" by simp
  then have "int (fst a * 2 ^ (sh - k)) < int c" by (simp only: of_nat_less_iff)
  with e show ?thesis by (simp add: Math_floor_def)
next
  case False
  then have e: "nat (- snd a) = k - sh" "\<not> 0 \<le> snd a" using assms(2) by auto
  from False have "c * 2 ^ k = c * 2 ^ (k - sh) * 2 ^ sh"
    by (simp add: power_add [symmetric])
  with assms(1) have "fst a < c * 2 ^ (k - sh)" by simp
  then have "fst a div 2 ^ (k - sh) < c"
    by (simp add: less_mult_imp_div_less)
  then have "int (fst a div 2 ^ (k - sh)) < int c" by (simp only: of_nat_less_iff)
  with e show ?thesis by (simp add: Math_floor_def zdiv_int)
qed

lemma random_coordinate_bounds:
  assumes "Math_random_result d"
  shows "0 \<le> Math_floor (js_mul d (20, 0)) \<and> Math_floor (js_mul d (20, 0)) < 20"
proof -
  obtain m e where d: "d = (m, e)" by (cases d)
  from assms d have m53: "m < 2 ^ 53" and e: "- 1074 \<le> e"
    and u: "e < 0 \<Longrightarrow> m < 2 ^ nat (- e)" "\<not> e < 0 \<Longrightarrow> m = 0"
    by (simp_all add: Math_random_result_def split: if_splits)
  define k where "k = nat (- e)"
  define sh where "sh = nat (int (bit_length (m * 20)) - 53)"
  have shmax: "nat (max (int (bit_length (m * 20)) - 53) (- 1074 - e)) = sh"
    using e by (simp add: sh_def max_def)
  have r: "js_mul d (20, 0) = (round_half_even (m * 20) sh, e + int sh)"
    by (simp add: js_mul_def round64_def d shmax Let_def)
  have "m * 20 < 2 ^ 58" using m53 by simp
  then have "bit_length (m * 20) \<le> 58" by (rule bit_length_le)
  then have sh5: "sh \<le> 5" by (simp add: sh_def)
  then have "(2::nat) ^ sh \<le> 2 ^ 5" by (simp only: power_increasing_iff)
  then have p32: "(2::nat) ^ sh \<le> 32" by simp
  have upper: "Math_floor (js_mul d (20, 0)) < 20"
  proof (cases "e < 0")
    case True
    with u have "m < 2 ^ k" by (simp add: k_def)
    then have "m * 40 + 40 \<le> 40 * 2 ^ k" by simp
    define X where "X = round_half_even (m * 20) sh * 2 ^ sh"
    have "2 * X \<le> 2 * (m * 20) + 2 ^ sh"
      unfolding X_def by (rule round_half_even_bound)
    with p32 \<open>m * 40 + 40 \<le> 40 * 2 ^ k\<close> have "X < 20 * 2 ^ k"
      by linarith
    then have "fst (js_mul d (20, 0)) * 2 ^ sh < 20 * 2 ^ k"
      by (simp add: r X_def)
    moreover from True have "snd (js_mul d (20, 0)) = int sh - int k"
      by (simp add: r k_def)
    ultimately have "Math_floor (js_mul d (20, 0)) < int 20"
      by (rule Math_floor_less)
    then show ?thesis by simp
  next
    case False
    with u have "m = 0" by simp
    then have "sh = 0" by (simp add: sh_def bit_length.simps)
    with \<open>m = 0\<close> have "js_mul d (20, 0) = (0, e)"
      by (simp add: r round_half_even_def)
    then show ?thesis by (simp add: Math_floor_def)
  qed
  with Math_floor_nonneg show ?thesis by simp
qed

lemma getRandomPosition_in_grid: "unit_draws r \<Longrightarrow> in_grid (getRandomPosition r)"
  using random_coordinate_bounds [of "fst r"] random_coordinate_bounds [of "snd r"]
  by (simp add: unit_draws_def in_grid_def getRandomPosition_def GRID_SIZE_def number_def)

subsection \<open>The callbacks\<close>

lemma newHead_in_grid: "in_grid p \<Longrightarrow> in_grid (newHead d p)"
  by (cases d; cases p) (auto simp: in_grid_def GRID_SIZE_def js_rem_def sgn_if)

lemma moveSnake_idle: "gameOver s \<or> \<not> isPlaying s \<Longrightarrow> moveSnake s r = Inr s"
  by (simp add: moveSnake_def)

lemma moveSnake_hit:
  assumes "\<not> gameOver s" "isPlaying s" "snake s = h # body"
    and "newHead (direction s) h \<in> set body"
  shows "moveSnake s r = Inr (s\<lparr>gameOver := True, isPlaying := False\<rparr>)"
  using assms by (simp add: moveSnake_def hitsSelf_Cons)

lemma moveSnake_eat:
  assumes "\<not> gameOver s" "isPlaying s" "snake s = h # body"
    and "newHead (direction s) h \<notin> set body" "newHead (direction s) h = food s"
  shows "moveSnake s r =
    Inr (s\<lparr>food := getRandomPosition r, score := score s + 1,
            snake := newHead (direction s) h # h # body\<rparr>)"
  using assms by (simp add: moveSnake_def hitsSelf_Cons Let_def)

lemma moveSnake_move:
  assumes "\<not> gameOver s" "isPlaying s" "snake s = h # body"
    and "newHead (direction s) h \<notin> set body" "newHead (direction s) h \<noteq> food s"
  shows "moveSnake s r = Inr (s\<lparr>snake := newHead (direction s) h # butlast (h # body)\<rparr>)"
  using assms by (auto simp add: moveSnake_def hitsSelf_Cons Let_def prod_eq_iff)

lemma moveSnake_cases:
  assumes "snake s \<noteq> []"
  obtains (idle) "moveSnake s r = Inr s"
  | (hit) "moveSnake s r = Inr (s\<lparr>gameOver := True, isPlaying := False\<rparr>)"
  | (eat) "moveSnake s r =
      Inr (s\<lparr>food := getRandomPosition r, score := score s + 1,
              snake := newHead (direction s) (hd (snake s)) # snake s\<rparr>)"
  | (move) "moveSnake s r =
      Inr (s\<lparr>snake := newHead (direction s) (hd (snake s)) # butlast (snake s)\<rparr>)"
proof -
  from assms obtain h body where sn: "snake s = h # body" by (cases "snake s") auto
  show thesis
  proof (cases "gameOver s \<or> \<not> isPlaying s")
    case True
    then show thesis using idle moveSnake_idle by blast
  next
    case False
    then have g: "\<not> gameOver s" "isPlaying s" by auto
    show thesis
    proof (cases "newHead (direction s) h \<in> set body")
      case True
      with g sn show thesis using hit moveSnake_hit by blast
    next
      case nohit: False
      show thesis
      proof (cases "newHead (direction s) h = food s")
        case True
        with g sn nohit have "moveSnake s r =
          Inr (s\<lparr>food := getRandomPosition r, score := score s + 1,
              snake := newHead (direction s) (hd (snake s)) # snake s\<rparr>)"
          using moveSnake_eat [of s h body r] by simp
        then show thesis by (rule eat)
      next
        case False
        with g sn nohit have "moveSnake s r =
          Inr (s\<lparr>snake := newHead (direction s) (hd (snake s)) # butlast (snake s)\<rparr>)"
          using moveSnake_move [of s h body r] by simp
        then show thesis by (rule move)
      qed
    qed
  qed
qed

subsection \<open>What every reachable state satisfies\<close>

lemma handleKeyPress_fields:
  "snake (handleKeyPress s k) = snake s" "score (handleKeyPress s k) = score s"
  by (simp_all add: handleKeyPress_def)

lemma handleTouchStart_fields:
  "snake (handleTouchStart s d) = snake s" "score (handleTouchStart s d) = score s"
  by (simp_all add: handleTouchStart_def)

lemma resetGame_fields:
  "snake (resetGame s r) = [(5, 5)]" "score (resetGame s r) = 0"
  "direction (resetGame s r) = RIGHT" "food (resetGame s r) = getRandomPosition r"
  "gameOver (resetGame s r) = False" "isPlaying (resetGame s r) = True"
  "difficulty (resetGame s r) = difficulty s"
  by (simp_all add: resetGame_def INITIAL_SNAKE_def INITIAL_DIRECTION_def)

lemma handle_inv:
  assumes "handle e s = Inr s'"
    and "snake s \<noteq> []" "\<forall>c \<in> set (snake s). in_grid c" "length (snake s) = 1 + score s"
  shows "snake s' \<noteq> [] \<and> (\<forall>c \<in> set (snake s'). in_grid c) \<and> length (snake s') = 1 + score s'"
proof (cases e)
  case (Tick r)
  from assms(2) have hd_in: "in_grid (hd (snake s))" using assms(3) by simp
  then have nh: "in_grid (newHead (direction s) (hd (snake s)))" by (rule newHead_in_grid)
  from assms(2) show ?thesis
  proof (cases rule: moveSnake_cases [where s = s and r = r])
    case idle
    with Tick assms show ?thesis by simp
  next
    case hit
    with Tick assms show ?thesis by auto
  next
    case eat
    with Tick assms nh show ?thesis by auto
  next
    case move
    have "\<forall>c \<in> set (butlast (snake s)). in_grid c"
      using assms(3) by (blast dest: in_set_butlastD)
    with move Tick assms nh show ?thesis by auto
  qed
next
  case (KeyDown k)
  with assms show ?thesis by (auto simp: handleKeyPress_fields)
next
  case (Touch d)
  with assms show ?thesis by (auto simp: handleTouchStart_fields)
next
  case (PlayAgain r)
  with assms show ?thesis by (auto simp: resetGame_fields in_grid_def GRID_SIZE_def)
next
  case (StartGame r)
  with assms show ?thesis by (auto simp: startGame_def resetGame_fields in_grid_def GRID_SIZE_def)
next
  case (SelectDifficulty v r)
  with assms show ?thesis
    by (cases "isPlaying s")
      (auto simp: handleDifficultyChange_def Let_def resetGame_fields in_grid_def GRID_SIZE_def)
qed

lemma intervalEffect_fields:
  "snake (intervalEffect s) = snake s" "score (intervalEffect s) = score s"
  "food (intervalEffect s) = food s" "direction (intervalEffect s) = direction s"
  "gameOver (intervalEffect s) = gameOver s" "isPlaying (intervalEffect s) = isPlaying s"
  "difficulty (intervalEffect s) = difficulty s"
  by (simp_all add: intervalEffect_def)

lemma fireE:
  assumes "fire e s = Inr s'"
  obtains s1 where "handle e s = Inr s1" "s' = intervalEffect s1"
  using assms by (auto simp: fire_def split: sum.splits)

lemma reachable_inv:
  "reachable s \<Longrightarrow>
     snake s \<noteq> [] \<and> (\<forall>c \<in> set (snake s). in_grid c) \<and> length (snake s) = 1 + score s"
proof (induction rule: reachable.induct)
  case (reach_mounted r)
  show ?case
    by (simp add: mounted_def initialState_def intervalEffect_def INITIAL_SNAKE_def
        in_grid_def GRID_SIZE_def)
next
  case (reach_fire s e s')
  from reach_fire.hyps(3) obtain s1 where h: "handle e s = Inr s1" and s': "s' = intervalEffect s1"
    by (rule fireE)
  from handle_inv [OF h] reach_fire.IH show ?case
    by (simp add: s' intervalEffect_fields)
qed

subsection \<open>Running events\<close>

lemmas eval_defs =
  fire_def startGame_def resetGame_def moveSnake_def hitsSelf_def some_js_def
  getRandomPosition_def js_mul_def round64_def round_half_even_def Math_floor_def number_def
  bit_length.simps Math_random_result_def GRID_SIZE_def js_rem_def intervalEffect_def mounted_def
  initialState_def INITIAL_SNAKE_def INITIAL_DIRECTION_def handleKeyPress_def
  handleTouchStart_def handleDifficultyChange_def Let_def unit_draws_def in_grid_def

lemma reachable_run:
  "reachable s \<Longrightarrow> \<forall>e \<in> set es. unit_draws (event_draws e) \<Longrightarrow> run es s = Inr s'
     \<Longrightarrow> reachable s'"
proof (induction es arbitrary: s)
  case Nil
  then show ?case by simp
next
  case (Cons e es)
  from Cons.prems(3) obtain s1 where f: "fire e s = Inr s1" and r: "run es s1 = Inr s'"
    by (auto split: sum.splits)
  from Cons.prems(1,2) f have "reachable s1" by (auto intro: reach_fire)
  with Cons.IH [of s1] Cons.prems(2) r show ?case by simp
qed

lemma heading_up_reachable: "reachable heading_up"
proof -
  have m: "reachable (mounted ((0, 0), (0, 0)))"
    by (rule reach_mounted) (simp add: unit_draws_def Math_random_result_def)
  have e: "run [StartGame ((5, - 4), (1, - 2)), Tick ((0, 0), (0, 0)), KeyDown ''ArrowUp'', Tick ((0, 0), (0, 0))]
      (mounted ((0, 0), (0, 0))) = Inr heading_up"
    by (simp add: eval_defs heading_up_def)
  have u: "\<forall>e \<in> set [StartGame ((5, - 4), (1, - 2)), Tick ((0, 0), (0, 0)), KeyDown ''ArrowUp'',
      Tick ((0, 0), (0, 0))]. unit_draws (event_draws e)"
    by (simp add: unit_draws_def Math_random_result_def)
  from m u e show ?thesis
    by (rule reachable_run)
qed

section \<open>The claims\<close>

text \<open>
  C1 as the code has it. Whenever a new food cell is chosen (when the component mounts, at
  session start and restart, and after each consumption) it is the cell computed from the
  two random draws alone, and it lies inside the grid. The snake is not looked at, and the
  chosen cell may be one of its cells. A tick either leaves food and score as they are or
  replaces the food by such a cell and adds one to the score. Each coordinate is the floor
  of the rounded product: the binary64 number nearest to 0.3, which is
  \<open>5404319552844595 / 2 ^ 54\<close>, gives 6, where the exact product would give 5.
\<close>

theorem food_is_random_grid_cell:
  assumes "unit_draws r"
  shows "in_grid (getRandomPosition r) \<and>
    food (mounted r) = getRandomPosition r \<and>
    food (resetGame s r) = getRandomPosition r \<and>
    food (startGame s r) = getRandomPosition r \<and>
    (moveSnake s r = Inr s' \<longrightarrow>
       food s' = food s \<and> score s' = score s \<or>
       food s' = getRandomPosition r \<and> score s' = score s + 1)"
proof -
  have "food s' = food s \<and> score s' = score s \<or>
       food s' = getRandomPosition r \<and> score s' = score s + 1"
    if m: "moveSnake s r = Inr s'"
  proof (cases "snake s")
    case Nil
    with m have "s' = s"
      by (simp add: moveSnake_def split: if_splits)
    then show ?thesis by simp
  next
    case (Cons h body)
    then have "snake s \<noteq> []" by simp
    then show ?thesis
      using m by (cases rule: moveSnake_cases [where s = s and r = r]) auto
  qed
  with assms show ?thesis
    by (simp add: getRandomPosition_in_grid mounted_def intervalEffect_def startGame_def
        resetGame_def)
qed

theorem food_is_random_grid_cell_witness:
  "unit_draws ((5404319552844595, - 54), (1, - 2)) \<and> getRandomPosition ((5404319552844595, - 54), (1, - 2)) = (6, 5) \<and>
   in_grid (getRandomPosition ((5404319552844595, - 54), (1, - 2))) \<and>
   food (mounted ((5404319552844595, - 54), (1, - 2))) = (6, 5) \<and>
   food (resetGame just_started ((5404319552844595, - 54), (1, - 2))) = (6, 5) \<and>
   food (startGame just_started ((5404319552844595, - 54), (1, - 2))) = (6, 5) \<and>
   moveSnake just_started ((5404319552844595, - 54), (1, - 2)) =
     Inr (just_started\<lparr>food := (6, 5), score := 1, snake := [(6, 5), (5, 5)]\<rparr>) \<and>
   food (just_started\<lparr>food := (6, 5), score := 1, snake := [(6, 5), (5, 5)]\<rparr>) =
     getRandomPosition ((5404319552844595, - 54), (1, - 2)) \<and>
   score (just_started\<lparr>food := (6, 5), score := 1, snake := [(6, 5), (5, 5)]\<rparr>) =
     score just_started + 1"
proof -
  have u: "unit_draws ((5404319552844595, - 54), (1, - 2))"
    by (simp add: unit_draws_def Math_random_result_def)
  have v: "getRandomPosition ((5404319552844595, - 54), (1, - 2)) = (6, 5)"
    by (simp add: eval_defs)
  have m: "moveSnake just_started ((5404319552844595, - 54), (1, - 2)) =
     Inr (just_started\<lparr>food := (6, 5), score := 1, snake := [(6, 5), (5, 5)]\<rparr>)"
    by (simp add: eval_defs just_started_def)
  from food_is_random_grid_cell [OF u, of just_started
      "just_started\<lparr>food := (6, 5), score := 1, snake := [(6, 5), (5, 5)]\<rparr>"] u v m
  show ?thesis by (simp add: just_started_def)
qed

text \<open>
  The food on the snake: a restart whose draws are both \<open>1/4\<close>, written \<open>(1, - 2)\<close>,
  puts the food on \<open>(5, 5)\<close>, the one cell of the reset snake; and a tick that eats the
  food at \<open>(6, 5)\<close> with draws \<open>5/16\<close>, written \<open>(5, - 4)\<close>, and \<open>1/4\<close> puts the new food
  on \<open>(6, 5)\<close>, the new head. In both the snake fills far less than the grid.
\<close>

theorem food_on_snake:
  "unit_draws ((1, - 2), (1, - 2)) \<and>
   snake (resetGame (mounted ((0, 0), (0, 0))) ((1, - 2), (1, - 2))) = [(5, 5)] \<and>
   food (resetGame (mounted ((0, 0), (0, 0))) ((1, - 2), (1, - 2))) = (5, 5) \<and>
   food (resetGame (mounted ((0, 0), (0, 0))) ((1, - 2), (1, - 2))) \<in>
     set (snake (resetGame (mounted ((0, 0), (0, 0))) ((1, - 2), (1, - 2)))) \<and>
   unit_draws ((5, - 4), (1, - 2)) \<and>
   moveSnake just_started ((5, - 4), (1, - 2)) =
     Inr (just_started\<lparr>food := (6, 5), score := 1, snake := [(6, 5), (5, 5)]\<rparr>)"
  by (simp add: eval_defs just_started_def)

text \<open>
  C2 on the code. The session reaches a state with two cells and heading UP, committed by
  the tick just run. Before the next tick the requests UP, LEFT, DOWN arrive, as key
  presses or as touches. Each is checked against the heading left by the request before
  it, so LEFT is accepted against UP and DOWN is accepted against LEFT: the heading for the
  next tick is DOWN, the opposite of UP, and that tick runs the head into the second cell
  and ends the game.
\<close>

theorem two_step_reversal:
  "run [StartGame ((5, - 4), (1, - 2)), Tick ((0, 0), (0, 0)), KeyDown ''ArrowUp'', Tick ((0, 0), (0, 0))]
     (mounted ((0, 0), (0, 0))) = Inr heading_up \<and>
   direction heading_up = UP \<and>
   run [KeyDown ''ArrowUp'', KeyDown ''ArrowLeft'', KeyDown ''ArrowDown''] heading_up =
     Inr (heading_up\<lparr>direction := DOWN\<rparr>) \<and>
   run [Touch UP, Touch LEFT, Touch DOWN] heading_up =
     Inr (heading_up\<lparr>direction := DOWN\<rparr>) \<and>
   DOWN = opposite UP \<and>
   run [Tick ((0, 0), (0, 0))] (heading_up\<lparr>direction := DOWN\<rparr>) =
     Inr (heading_up\<lparr>direction := DOWN, gameOver := True, isPlaying := False,
            gameInterval := None\<rparr>)"
  by (simp add: eval_defs heading_up_def)

theorem two_step_reversal_witness:
  "\<exists>s'. run [KeyDown ''ArrowUp'', KeyDown ''ArrowLeft'', KeyDown ''ArrowDown''] heading_up =
      Inr s' \<and> direction s' = opposite (direction heading_up)"
  using two_step_reversal by simp

text \<open>
  C3. The self-collision test of a tick looks at the body as it is before the move, tail
  included: when the session is playing, the snake has at least two cells and the new head
  is the cell the tail occupies, the tick ends the game (and changes nothing else), although a
  tick without collision would have dropped that tail cell.
\<close>

theorem moving_into_tail_ends_game:
  assumes "isPlaying s" and "\<not> gameOver s" and "2 \<le> length (snake s)"
    and "newHead (direction s) (hd (snake s)) = last (snake s)"
  shows "moveSnake s r = Inr (s\<lparr>gameOver := True, isPlaying := False\<rparr>)"
proof -
  from assms(3) obtain h body where sn: "snake s = h # body"
    by (cases "snake s") auto
  from assms(3) sn have body: "body \<noteq> []"
    by auto
  from assms(4) sn body have "newHead (direction s) h \<in> set body"
    by simp
  with assms(1,2) sn show ?thesis by (simp add: moveSnake_hit)
qed

theorem moving_into_tail_ends_game_witness:
  "isPlaying coiled \<and> \<not> gameOver coiled \<and> 2 \<le> length (snake coiled) \<and>
   newHead (direction coiled) (hd (snake coiled)) = last (snake coiled) \<and>
   moveSnake coiled ((0, 0), (0, 0)) = Inr (coiled\<lparr>gameOver := True, isPlaying := False\<rparr>)"
proof -
  have h: "isPlaying coiled" "\<not> gameOver coiled" "2 \<le> length (snake coiled)"
    "newHead (direction coiled) (hd (snake coiled)) = last (snake coiled)"
    by (simp_all add: coiled_def js_rem_def GRID_SIZE_def)
  from h moving_into_tail_ends_game [OF h, of "((0, 0), (0, 0))"] show ?thesis by simp
qed

text \<open>
  C4. A tick of a playing session that does not collide returns a state in which the snake
  is one cell longer if the new head is the food cell and as long as before otherwise, and
  in which the score is one higher if the new head is the food cell and the same otherwise.
\<close>

theorem tick_length_and_score:
  assumes "isPlaying s" and "\<not> gameOver s" and "snake s = h # body"
    and "\<not> hitsSelf (snake s) (newHead (direction s) h)"
  shows "\<exists>s'. moveSnake s r = Inr s' \<and>
           length (snake s') =
             length (snake s) + (if newHead (direction s) h = food s then 1 else 0) \<and>
           score s' = score s + (if newHead (direction s) h = food s then 1 else 0)"
proof -
  from assms(3,4) have nohit: "newHead (direction s) h \<notin> set body"
    by (simp add: hitsSelf_Cons)
  show ?thesis
  proof (cases "newHead (direction s) h = food s")
    case True
    with assms nohit show ?thesis by (simp add: moveSnake_eat)
  next
    case False
    with assms nohit show ?thesis by (simp add: moveSnake_move)
  qed
qed

theorem tick_length_and_score_witness:
  "isPlaying just_started \<and> \<not> gameOver just_started \<and> snake just_started = [(5, 5)] \<and>
   \<not> hitsSelf (snake just_started) (newHead (direction just_started) (5, 5)) \<and>
   newHead (direction just_started) (5, 5) = food just_started \<and>
   (\<exists>s'. moveSnake just_started ((0, 0), (0, 0)) = Inr s' \<and>
      length (snake s') = length (snake just_started) + 1 \<and>
      score s' = score just_started + 1)"
proof -
  have h: "isPlaying just_started" "\<not> gameOver just_started"
    "snake just_started = (5, 5) # []"
    "\<not> hitsSelf (snake just_started) (newHead (direction just_started) (5, 5))"
    by (simp_all add: just_started_def hitsSelf_Cons)
  have f: "newHead (direction just_started) (5, 5) = food just_started"
    by (simp add: just_started_def js_rem_def GRID_SIZE_def)
  from h f tick_length_and_score [OF h, of "((0, 0), (0, 0))"] show ?thesis by simp
qed

text \<open>
  C5. In every reachable state the snake has as many cells as the initial snake, which has
  one, plus the score.
\<close>

theorem length_is_initial_plus_score:
  assumes "reachable s"
  shows "length (snake s) = length INITIAL_SNAKE + score s \<and> length INITIAL_SNAKE = 1"
proof -
  from reachable_inv [OF assms] have "length (snake s) = 1 + score s"
    by blast
  then show ?thesis
    by (simp add: INITIAL_SNAKE_def)
qed

theorem length_is_initial_plus_score_witness:
  "reachable heading_up \<and>
   length (snake heading_up) = length INITIAL_SNAKE + score heading_up \<and>
   length INITIAL_SNAKE = 1 \<and> score heading_up = 1"
proof -
  note r = heading_up_reachable
  have s: "score heading_up = 1"
    by (simp add: heading_up_def)
  from r s length_is_initial_plus_score [OF r] show ?thesis
    by blast
qed

text \<open>
  C6. A tick that detects a self-collision returns a state that is game over and not
  playing, with no interval active after the effects of that render, and with the snake,
  the food and the score as they were. From a state that is game over, any number of
  further ticks return a state that is still game over with the same snake and score.
\<close>

theorem collision_freezes_game:
  "(isPlaying s \<and> \<not> gameOver s \<and> snake s = h # body \<and>
    hitsSelf (snake s) (newHead (direction s) h) \<longrightarrow>
      (\<exists>s'. fire (Tick r) s = Inr s' \<and> gameOver s' \<and> \<not> isPlaying s' \<and>
         gameInterval s' = None \<and> snake s' = snake s \<and> food s' = food s \<and>
         score s' = score s)) \<and>
   (gameOver t \<longrightarrow>
      (\<exists>t'. run (map Tick rs) t = Inr t' \<and> gameOver t' \<and> snake t' = snake t \<and>
         score t' = score t))"
proof
  show "isPlaying s \<and> \<not> gameOver s \<and> snake s = h # body \<and>
    hitsSelf (snake s) (newHead (direction s) h) \<longrightarrow>
      (\<exists>s'. fire (Tick r) s = Inr s' \<and> gameOver s' \<and> \<not> isPlaying s' \<and>
         gameInterval s' = None \<and> snake s' = snake s \<and> food s' = food s \<and>
         score s' = score s)"
  proof
    assume a: "isPlaying s \<and> \<not> gameOver s \<and> snake s = h # body \<and>
      hitsSelf (snake s) (newHead (direction s) h)"
    then have "hitsSelf (h # body) (newHead (direction s) h)"
      by auto
    then have "newHead (direction s) h \<in> set body"
      by (simp add: hitsSelf_Cons)
    with a have "moveSnake s r = Inr (s\<lparr>gameOver := True, isPlaying := False\<rparr>)"
      by (simp add: moveSnake_hit)
    then have "fire (Tick r) s =
        Inr (s\<lparr>gameOver := True, isPlaying := False, gameInterval := None\<rparr>)"
      by (simp add: fire_def intervalEffect_def)
    then show "\<exists>s'. fire (Tick r) s = Inr s' \<and> gameOver s' \<and> \<not> isPlaying s' \<and>
         gameInterval s' = None \<and> snake s' = snake s \<and> food s' = food s \<and>
         score s' = score s"
      by simp
  qed
next
  have "gameOver t \<Longrightarrow> \<exists>t'. run (map Tick rs) t = Inr t' \<and> gameOver t' \<and>
      snake t' = snake t \<and> score t' = score t"
  proof (induction rs arbitrary: t)
    case Nil
    then show ?case by simp
  next
    case (Cons r rs)
    from Cons.prems have f: "fire (Tick r) t = Inr (intervalEffect t)"
      by (simp add: fire_def moveSnake_idle)
    from Cons.prems have "gameOver (intervalEffect t)"
      by (simp add: intervalEffect_fields)
    from Cons.IH [OF this] f show ?case
      by (simp add: intervalEffect_fields)
  qed
  then show "gameOver t \<longrightarrow>
      (\<exists>t'. run (map Tick rs) t = Inr t' \<and> gameOver t' \<and> snake t' = snake t \<and>
         score t' = score t)" by blast
qed

theorem collision_freezes_game_witness:
  "isPlaying coiled \<and> \<not> gameOver coiled \<and> snake coiled = (3, 3) # [(4, 3), (4, 4), (3, 4)] \<and>
   hitsSelf (snake coiled) (newHead (direction coiled) (3, 3)) \<and>
   (\<exists>s'. fire (Tick ((0, 0), (0, 0))) coiled = Inr s' \<and> gameOver s' \<and> \<not> isPlaying s' \<and>
      gameInterval s' = None \<and> snake s' = snake coiled \<and> food s' = food coiled \<and>
      score s' = score coiled) \<and>
   gameOver (coiled\<lparr>gameOver := True, isPlaying := False, gameInterval := None\<rparr>) \<and>
   (\<exists>t'. run (map Tick [((0, 0), (0, 0)), ((1, - 1), (1, - 1))])
            (coiled\<lparr>gameOver := True, isPlaying := False, gameInterval := None\<rparr>) = Inr t' \<and>
      gameOver t' \<and> snake t' = snake coiled \<and> score t' = score coiled)"
proof -
  have h: "isPlaying coiled \<and> \<not> gameOver coiled \<and>
      snake coiled = (3, 3) # [(4, 3), (4, 4), (3, 4)] \<and>
      hitsSelf (snake coiled) (newHead (direction coiled) (3, 3))"
    by (simp add: coiled_def hitsSelf_Cons js_rem_def GRID_SIZE_def)
  have g: "gameOver (coiled\<lparr>gameOver := True, isPlaying := False, gameInterval := None\<rparr>)"
    by simp
  note t = collision_freezes_game [of coiled "(3, 3)" "[(4, 3), (4, 4), (3, 4)]" "((0, 0), (0, 0))"
      "coiled\<lparr>gameOver := True, isPlaying := False, gameInterval := None\<rparr>"
      "[((0, 0), (0, 0)), ((1, - 1), (1, - 1))]"]
  from h t have first: "\<exists>s'. fire (Tick ((0, 0), (0, 0))) coiled = Inr s' \<and> gameOver s' \<and>
      \<not> isPlaying s' \<and> gameInterval s' = None \<and> snake s' = snake coiled \<and>
      food s' = food coiled \<and> score s' = score coiled"
    by blast
  from g t have "\<exists>t'. run (map Tick [((0, 0), (0, 0)), ((1, - 1), (1, - 1))])
        (coiled\<lparr>gameOver := True, isPlaying := False, gameInterval := None\<rparr>) = Inr t' \<and>
      gameOver t' \<and>
      snake t' = snake (coiled\<lparr>gameOver := True, isPlaying := False, gameInterval := None\<rparr>) \<and>
      score t' = score (coiled\<lparr>gameOver := True, isPlaying := False, gameInterval := None\<rparr>)"
    by blast
  then have second: "\<exists>t'. run (map Tick [((0, 0), (0, 0)), ((1, - 1), (1, - 1))])
        (coiled\<lparr>gameOver := True, isPlaying := False, gameInterval := None\<rparr>) = Inr t' \<and>
      gameOver t' \<and> snake t' = snake coiled \<and> score t' = score coiled"
    by simp
  from h g first second show ?thesis by blast
qed

text \<open>
  C7. While the session is playing, a single direction request (an arrow key or a touch
  button) for the exact opposite of the current heading is rejected and leaves the state
  as it is; a request for any other heading is accepted and becomes the heading. (A
  rejected request leaves the state unchanged whether the session is playing or not.)
\<close>

theorem single_request_arbitration:
  "handleKeyPress s (arrowKey (opposite (direction s))) = s \<and>
   handleTouchStart s (opposite (direction s)) = s \<and>
   (isPlaying s \<and> d \<noteq> opposite (direction s) \<longrightarrow>
      handleKeyPress s (arrowKey d) = s\<lparr>direction := d\<rparr> \<and>
      handleTouchStart s d = s\<lparr>direction := d\<rparr>)"
  by (cases "direction s"; cases d) (simp_all add: handleKeyPress_def handleTouchStart_def)

theorem single_request_arbitration_witness:
  "isPlaying just_started \<and> UP \<noteq> opposite (direction just_started) \<and>
   handleKeyPress just_started (arrowKey (opposite (direction just_started))) = just_started \<and>
   handleTouchStart just_started (opposite (direction just_started)) = just_started \<and>
   handleKeyPress just_started (arrowKey UP) = just_started\<lparr>direction := UP\<rparr> \<and>
   handleTouchStart just_started UP = just_started\<lparr>direction := UP\<rparr>"
proof -
  have h: "isPlaying just_started \<and> UP \<noteq> opposite (direction just_started)"
    by (simp add: just_started_def)
  with single_request_arbitration [of just_started UP] show ?thesis by blast
qed

text \<open>
  C8. The wraparound arithmetic of the new head returns, on each axis by itself, a value
  in \<open>[0, GRID_SIZE)\<close> for every coordinate the snake can hold and beyond: the step that
  adds one for every coordinate from \<open>-1\<close> upwards, however large, and the step that
  subtracts one for every coordinate from \<open>-19\<close> upwards, so also where the displaced
  coordinate is negative (\<open>0 - 1\<close>) or beyond the grid (\<open>19 + 1\<close>). Hence the new head of a
  head inside the grid is inside the grid, for every heading, and in every reachable state
  every cell of the snake, the head first, is inside the 20 by 20 grid.
\<close>

theorem wraparound_in_grid:
  "(- 1 \<le> c \<longrightarrow>
      0 \<le> js_rem (c + 1) GRID_SIZE \<and> js_rem (c + 1) GRID_SIZE < GRID_SIZE) \<and>
   (- 19 \<le> c \<longrightarrow>
      0 \<le> js_rem (c - 1 + GRID_SIZE) GRID_SIZE \<and>
      js_rem (c - 1 + GRID_SIZE) GRID_SIZE < GRID_SIZE) \<and>
   (in_grid p \<longrightarrow> in_grid (newHead d p)) \<and>
   (reachable s \<longrightarrow> snake s \<noteq> [] \<and> (\<forall>cell \<in> set (snake s). in_grid cell))"
proof (intro conjI)
  show "- 1 \<le> c \<longrightarrow>
      0 \<le> js_rem (c + 1) GRID_SIZE \<and> js_rem (c + 1) GRID_SIZE < GRID_SIZE"
    by (simp add: js_rem_nonneg GRID_SIZE_def)
  show "- 19 \<le> c \<longrightarrow>
      0 \<le> js_rem (c - 1 + GRID_SIZE) GRID_SIZE \<and>
      js_rem (c - 1 + GRID_SIZE) GRID_SIZE < GRID_SIZE"
    by (simp add: js_rem_nonneg GRID_SIZE_def)
  show "in_grid p \<longrightarrow> in_grid (newHead d p)"
    by (simp add: newHead_in_grid)
  show "reachable s \<longrightarrow> snake s \<noteq> [] \<and> (\<forall>cell \<in> set (snake s). in_grid cell)"
    using reachable_inv [of s] by blast
qed

theorem wraparound_in_grid_witness:
  "(- 1 :: int) \<le> 19 \<and> js_rem (19 + 1) GRID_SIZE = 0 \<and>
   0 \<le> js_rem (19 + 1) GRID_SIZE \<and> js_rem (19 + 1) GRID_SIZE < GRID_SIZE \<and>
   (- 19 :: int) \<le> 0 \<and> js_rem (0 - 1 + GRID_SIZE) GRID_SIZE = 19 \<and>
   0 \<le> js_rem (0 - 1 + GRID_SIZE) GRID_SIZE \<and>
   js_rem (0 - 1 + GRID_SIZE) GRID_SIZE < GRID_SIZE \<and>
   in_grid (0, 19) \<and> in_grid (newHead LEFT (0, 19)) \<and> newHead LEFT (0, 19) = (19, 19) \<and>
   reachable heading_up \<and> snake heading_up = [(6, 4), (6, 5)] \<and>
   in_grid (6, 4) \<and> in_grid (6, 5)"
proof -
  note r = heading_up_reachable
  have g: "in_grid (0, 19)" "(- 1 :: int) \<le> 19" "(- 19 :: int) \<le> 0"
    by (simp_all add: in_grid_def GRID_SIZE_def)
  have v: "js_rem (19 + 1) GRID_SIZE = 0" "js_rem (0 - 1 + GRID_SIZE) GRID_SIZE = 19"
    "newHead LEFT (0, 19) = (19, 19)"
    by (simp_all add: js_rem_def GRID_SIZE_def)
  have sn: "snake heading_up = [(6, 4), (6, 5)]"
    by (simp add: heading_up_def)
  note a = wraparound_in_grid [of 19 "(0, 19)" LEFT heading_up]
  note b = wraparound_in_grid [of 0 "(0, 19)" LEFT heading_up]
  from a g have inc: "0 \<le> js_rem (19 + 1) GRID_SIZE \<and> js_rem (19 + 1) GRID_SIZE < GRID_SIZE"
    by blast
  from b g have dec: "0 \<le> js_rem (0 - 1 + GRID_SIZE) GRID_SIZE \<and>
      js_rem (0 - 1 + GRID_SIZE) GRID_SIZE < GRID_SIZE"
    by blast
  from a g have nh: "in_grid (newHead LEFT (0, 19))"
    by blast
  from a r have "\<forall>cell \<in> set (snake heading_up). in_grid cell"
    by blast
  then have cells: "in_grid (6, 4)" "in_grid (6, 5)"
    by (simp_all add: sn)
  from r g v sn inc dec nh cells show ?thesis
    by blast
qed

text \<open>
  C9. Changing the difficulty while the session is playing restarts it: the score is 0,
  the snake is the single cell (5, 5), the heading is RIGHT, the session is playing and not
  game over, and the interval runs at the new period. Changing it while the session is not
  playing changes the configured difficulty and nothing else, and no interval is started.
\<close>

theorem difficulty_change:
  "(isPlaying s \<longrightarrow>
      handleDifficultyChange s v r = resetGame (s\<lparr>difficulty := v\<rparr>) r \<and>
      score (handleDifficultyChange s v r) = 0 \<and>
      snake (handleDifficultyChange s v r) = [(5, 5)] \<and>
      direction (handleDifficultyChange s v r) = RIGHT \<and>
      isPlaying (handleDifficultyChange s v r) \<and>
      \<not> gameOver (handleDifficultyChange s v r) \<and>
      difficulty (handleDifficultyChange s v r) = v \<and>
      (\<exists>s'. fire (SelectDifficulty v r) s = Inr s' \<and>
         gameInterval s' = Some (GAME_SPEEDS v))) \<and>
   (\<not> isPlaying t \<longrightarrow>
      handleDifficultyChange t v r = t\<lparr>difficulty := v\<rparr> \<and>
      fire (SelectDifficulty v r) t = Inr (t\<lparr>difficulty := v, gameInterval := None\<rparr>))"
  by (simp add: handleDifficultyChange_def Let_def resetGame_fields fire_def
      intervalEffect_def)

theorem difficulty_change_witness:
  "isPlaying heading_up \<and>
   handleDifficultyChange heading_up Hard ((1, - 2), (1, - 1)) =
     \<lparr>snake = [(5, 5)], direction = RIGHT, food = (5, 10), gameOver = False, score = 0,
      isPlaying = True, difficulty = Hard, gameInterval = Some 150\<rparr> \<and>
   fire (SelectDifficulty Hard ((1, - 2), (1, - 1))) heading_up =
     Inr \<lparr>snake = [(5, 5)], direction = RIGHT, food = (5, 10), gameOver = False, score = 0,
      isPlaying = True, difficulty = Hard, gameInterval = Some 100\<rparr> \<and>
   \<not> isPlaying (mounted ((0, 0), (0, 0))) \<and>
   handleDifficultyChange (mounted ((0, 0), (0, 0))) Hard ((1, - 2), (1, - 1)) =
     (mounted ((0, 0), (0, 0)))\<lparr>difficulty := Hard\<rparr> \<and>
   fire (SelectDifficulty Hard ((1, - 2), (1, - 1))) (mounted ((0, 0), (0, 0))) =
     Inr ((mounted ((0, 0), (0, 0)))\<lparr>difficulty := Hard, gameInterval := None\<rparr>)"
proof -
  have h: "isPlaying heading_up" "\<not> isPlaying (mounted ((0, 0), (0, 0)))"
    by (simp_all add: heading_up_def mounted_def initialState_def intervalEffect_def)
  have e: "resetGame (heading_up\<lparr>difficulty := Hard\<rparr>) ((1, - 2), (1, - 1)) =
     \<lparr>snake = [(5, 5)], direction = RIGHT, food = (5, 10), gameOver = False, score = 0,
      isPlaying = True, difficulty = Hard, gameInterval = Some 150\<rparr>"
    by (simp add: heading_up_def eval_defs)
  have f: "fire (SelectDifficulty Hard ((1, - 2), (1, - 1))) heading_up =
     Inr \<lparr>snake = [(5, 5)], direction = RIGHT, food = (5, 10), gameOver = False, score = 0,
      isPlaying = True, difficulty = Hard, gameInterval = Some 100\<rparr>"
    by (simp add: heading_up_def eval_defs)
  from h e f difficulty_change [of heading_up Hard "((1, - 2), (1, - 1))" "mounted ((0, 0), (0, 0))"]
  show ?thesis by simp
qed

text \<open>
  C10. The self-collision test skips index 0 of the pre-move body: it holds exactly when
  the new head is one of the cells after the first. So a tick on a snake of one cell never
  ends the game, whatever the heading: it returns a state that is still not game over.
\<close>

theorem single_cell_never_collides:
  "hitsSelf (x # xs) nh = (nh \<in> set xs) \<and>
   (length (snake s) = 1 \<and> \<not> gameOver s \<longrightarrow>
      (\<exists>s'. moveSnake s r = Inr s' \<and> \<not> gameOver s'))"
proof -
  have "\<exists>s'. moveSnake s r = Inr s' \<and> \<not> gameOver s'"
    if len: "length (snake s) = 1" and g: "\<not> gameOver s"
  proof -
    from len obtain h where sn: "snake s = [h]"
      by (cases "snake s") auto
    then show ?thesis using g
      by (simp add: moveSnake_def hitsSelf_Cons Let_def)
  qed
  then show ?thesis by (simp add: hitsSelf_Cons)
qed

theorem single_cell_never_collides_witness:
  "hitsSelf [(3, 3), (4, 3), (4, 4), (3, 4)] (3, 3) = False \<and>
   length (snake just_started) = 1 \<and> \<not> gameOver just_started \<and>
   (\<exists>s'. moveSnake just_started ((0, 0), (0, 0)) = Inr s' \<and> \<not> gameOver s')"
proof -
  have h: "length (snake just_started) = 1 \<and> \<not> gameOver just_started"
    by (simp add: just_started_def)
  with single_cell_never_collides [of "(3, 3)" "[(4, 3), (4, 4), (3, 4)]" "(3, 3)" just_started "((0, 0), (0, 0))"]
  show ?thesis by simp
qed

end
